theory Spec2Isabelle
  imports Complex_Main "HOL-Library.Sublist" "HOL-Library.List_Lexorder"
begin

section \<open>Text\<close>

text \<open>
  A Python \<open>str\<close> is a sequence of Unicode code points. The source tests for two
  characters beyond Latin-1 (U+201A and, by intention, U+20AC), so a code point is a
  natural number and a text is a list of them. \<open>str\<close> turns an ASCII literal into a text.

  The case mapping, the digits and the word characters of Python come from the Unicode
  character database, which is not part of the repository. They are fixed here on the
  ASCII range, where they are exact; a code point above 127 is taken as caseless, as no
  digit and as no word character, with two exceptions. The Kelvin sign U+212A has the
  letter k as its lower case, which the salary parser looks for. The decimal digits
  beyond ASCII, which the salary parser reads as numbers, are a parameter of it.
  Whitespace is the full set of \<open>str.isspace\<close>.
\<close>

type_synonym ustring = "nat list"

definition str :: "string \<Rightarrow> ustring" where
  "str s = map of_char s"

definition lower_cp :: "nat \<Rightarrow> nat" where
  "lower_cp c = (if 65 \<le> c \<and> c \<le> 90 then c + 32 else if c = 8490 then 107 else c)"

definition upper_cp :: "nat \<Rightarrow> nat" where
  "upper_cp c = (if 97 \<le> c \<and> c \<le> 122 then c - 32 else c)"

text \<open>\<^verbatim>\<open>s.lower()\<close>\<close>

definition lower :: "ustring \<Rightarrow> ustring" where
  "lower s = map lower_cp s"

definition is_space :: "nat \<Rightarrow> bool" where
  "is_space c \<longleftrightarrow>
     (9 \<le> c \<and> c \<le> 13) \<or> (28 \<le> c \<and> c \<le> 32) \<or> c = 133 \<or> c = 160 \<or> c = 5760 \<or>
     (8192 \<le> c \<and> c \<le> 8202) \<or> c = 8232 \<or> c = 8233 \<or> c = 8239 \<or> c = 8287 \<or>
     c = 12288"

definition is_digit :: "nat \<Rightarrow> bool" where
  "is_digit c \<longleftrightarrow> 48 \<le> c \<and> c \<le> 57"

definition is_cased :: "nat \<Rightarrow> bool" where
  "is_cased c \<longleftrightarrow> (65 \<le> c \<and> c \<le> 90) \<or> (97 \<le> c \<and> c \<le> 122)"

definition is_word :: "nat \<Rightarrow> bool" where
  "is_word c \<longleftrightarrow> is_digit c \<or> is_cased c \<or> c = 95"

text \<open>\<^verbatim>\<open>s.strip()\<close>\<close>

definition strip :: "ustring \<Rightarrow> ustring" where
  "strip s = rev (dropWhile is_space (rev (dropWhile is_space s)))"

text \<open>\<^verbatim>\<open>s.title()\<close>: a cased character is upper case after an uncased one (or at the
  start) and lower case after a cased one.\<close>

fun title_from :: "bool \<Rightarrow> ustring \<Rightarrow> ustring" where
  "title_from prev [] = []"
| "title_from prev (c # cs) =
     (if prev then lower_cp c else upper_cp c) # title_from (is_cased c) cs"

definition title_case :: "ustring \<Rightarrow> ustring" where
  "title_case s = title_from False s"

text \<open>\<^verbatim>\<open>sep.join(xs)\<close>\<close>

fun join :: "ustring \<Rightarrow> ustring list \<Rightarrow> ustring" where
  "join sep [] = []"
| "join sep [x] = x"
| "join sep (x # y # xs) = x @ sep @ join sep (y # xs)"

text \<open>\<^verbatim>\<open>k in t\<close> on two strings: \<open>k\<close> occurs in \<open>t\<close> as a contiguous block.\<close>

fun str_in :: "ustring \<Rightarrow> ustring \<Rightarrow> bool" where
  "str_in k [] = (k = [])"
| "str_in k (c # cs) = (prefix k (c # cs) \<or> str_in k cs)"

section \<open>Seniority classifier\<close>

text \<open>
  \<^verbatim>\<open>SENIORITY_MAP\<close> is a dict literal; a Python dict iterates in insertion order, so
  the table is the association list of its entries in the order they are written.
\<close>

definition SENIORITY_MAP :: "(ustring \<times> ustring) list" where
  "SENIORITY_MAP =
    [(str ''senior'', str ''senior''),
     (str ''sr.'', str ''senior''),
     (str ''lead'', str ''senior''),
     (str ''principal'', str ''senior''),
     (str ''staff'', str ''senior''),
     (str ''junior'', str ''junior''),
     (str ''jr.'', str ''junior''),
     (str ''intern'', str ''intern''),
     (str ''manager'', str ''manager'')]"

text \<open>
  The loop \<^verbatim>\<open>for k, v in SENIORITY_MAP.items(): if k in t: return v\<close>, followed by
  \<^verbatim>\<open>return "mid"\<close>.
\<close>

fun scan_keywords :: "(ustring \<times> ustring) list \<Rightarrow> ustring \<Rightarrow> ustring" where
  "scan_keywords [] t = str ''mid''"
| "scan_keywords ((k, v) # kvs) t = (if str_in k t then v else scan_keywords kvs t)"

text \<open>
  \<^verbatim>\<open>infer_seniority(title)\<close>. \<^verbatim>\<open>not title\<close> holds for \<^verbatim>\<open>None\<close> and for the empty
  string.
\<close>

definition infer_seniority :: "ustring option \<Rightarrow> ustring" where
  "infer_seniority title =
    (case title of
       None \<Rightarrow> []
     | Some ti \<Rightarrow> if ti = [] then [] else scan_keywords SENIORITY_MAP (lower ti))"

section \<open>Field normalizer\<close>

text \<open>
  \<^verbatim>\<open>re.sub(r"\r\n", "\n", s)\<close>: scanning from the left, each carriage return that a
  line feed follows is replaced, with the line feed, by one line feed.
\<close>

fun sub_crlf :: "ustring \<Rightarrow> ustring" where
  "sub_crlf (c # d # r) =
     (if c = 13 \<and> d = 10 then 10 # sub_crlf r else c # sub_crlf (d # r))"
| "sub_crlf r = r"

text \<open>\<^verbatim>\<open>re.sub(r"\n+", "\n", s)\<close>: each maximal run of line feeds becomes one.\<close>

fun sub_newlines :: "ustring \<Rightarrow> ustring" where
  "sub_newlines (c # d # r) =
     (if c = 10 \<and> d = 10 then sub_newlines (d # r) else c # sub_newlines (d # r))"
| "sub_newlines r = r"

text \<open>\<^verbatim>\<open>re.sub(r"\s+", " ", l)\<close>: each maximal run of whitespace becomes one space.\<close>

fun sub_spaces :: "ustring \<Rightarrow> ustring" where
  "sub_spaces (c # d # r) =
     (if is_space c \<and> is_space d then sub_spaces (d # r)
      else (if is_space c then 32 else c) # sub_spaces (d # r))"
| "sub_spaces [c] = [if is_space c then 32 else c]"
| "sub_spaces [] = []"

text \<open>\<^verbatim>\<open>clean_text(s: Optional[str]) -> str\<close>\<close>

definition clean_text :: "ustring option \<Rightarrow> ustring" where
  "clean_text s =
    (case s of
       None \<Rightarrow> []
     | Some s0 \<Rightarrow>
         if s0 = [] then []
         else
           let s1 = sub_crlf s0;
               s2 = sub_newlines s1
           in strip s2)"

text \<open>
  The annotation of \<^verbatim>\<open>clean_text\<close> admits a string or \<^verbatim>\<open>None\<close>, and Python does not
  enforce it. \<open>py_value\<close> holds the values a raw record read from JSON or CSV can
  have in a text field: \<^verbatim>\<open>None\<close>, a string, a whole number, and the float NaN that
  \<^verbatim>\<open>pandas\<close> puts in an empty cell. \<open>clean_text_any\<close> is \<^verbatim>\<open>clean_text\<close> on such a
  value: \<^verbatim>\<open>not s\<close> goes by the truth value, and \<^verbatim>\<open>re.sub\<close> raises
  \<^verbatim>\<open>TypeError\<close> on a value that is not a string.
\<close>

datatype error = KeyError string | TypeError




text \<open>
  \<^verbatim>\<open>parse_publication_date\<close>. The date parser of \<^verbatim>\<open>dateutil\<close> is not part of the
  repository: \<open>date_parser\<close> stands for \<^verbatim>\<open>date_parser.parse\<close> under the
  \<^verbatim>\<open>try\<close>, with \<open>None\<close> where it raises.
\<close>

definition parse_publication_date :: "(ustring \<Rightarrow> 'd option) \<Rightarrow> ustring option \<Rightarrow> 'd option" where
  "parse_publication_date date_parser s =
    (case s of
       None \<Rightarrow> None
     | Some s0 \<Rightarrow> if s0 = [] then None else date_parser s0)"

definition remote_tokens :: "ustring list" where
  "remote_tokens = [str ''remote'', str ''anywhere'', str ''worldwide'', str ''work from home'']"

text \<open>\<^verbatim>\<open>standardize_location(loc: Optional[str]) -> str\<close>\<close>

definition standardize_location :: "ustring option \<Rightarrow> ustring" where
  "standardize_location loc =
    (case loc of
       None \<Rightarrow> []
     | Some loc0 \<Rightarrow>
         if loc0 = [] then []
         else
           let l = lower (strip loc0);
               l = sub_spaces l
           in if list_ex (\<lambda>tok. str_in tok l) remote_tokens then str ''Remote''
              else title_case l)"

section \<open>Skill extractor\<close>

definition COMMON_SKILLS :: "ustring list" where
  "COMMON_SKILLS =
    [str ''python'', str ''sql'', str ''aws'', str ''docker'', str ''kubernetes'',
     str ''pandas'', str ''spark'', str ''tensorflow'', str ''pytorch'',
     str ''scikit-learn'', str ''excel'', str ''tableau'', str ''powerbi'', str ''java'',
     str ''scala'', str ''r'', str ''javascript'']"

text \<open>
  The pattern is \<^verbatim>\<open>r"\b" + re.escape(skill.lower()) + r"\b"\<close>: the escaped skill
  matches itself character by character, and \<^verbatim>\<open>\b\<close> holds between two positions of
  which exactly one holds a word character, the ends of the text counting as none.
  \<open>prev\<close> is the character before the position, \<open>None\<close> at the start of the text.
\<close>

definition word_boundary :: "nat option \<Rightarrow> nat option \<Rightarrow> bool" where
  "word_boundary left right \<longleftrightarrow>
     (case left of None \<Rightarrow> False | Some c \<Rightarrow> is_word c) \<noteq>
     (case right of None \<Rightarrow> False | Some c \<Rightarrow> is_word c)"

definition first_char :: "ustring \<Rightarrow> nat option" where
  "first_char s = (case s of [] \<Rightarrow> None | c # _ \<Rightarrow> Some c)"

definition match_word :: "nat option \<Rightarrow> ustring \<Rightarrow> ustring \<Rightarrow> bool" where
  "match_word prev pat txt \<longleftrightarrow>
     word_boundary prev (first_char txt) \<and>
     prefix pat txt \<and>
     word_boundary (if pat = [] then prev else Some (last pat))
                   (first_char (drop (length pat) txt))"

text \<open>\<^verbatim>\<open>re.search\<close> tries every position of the text, the end included.\<close>

fun search_word :: "nat option \<Rightarrow> ustring \<Rightarrow> ustring \<Rightarrow> bool" where
  "search_word prev pat [] = match_word prev pat []"
| "search_word prev pat (c # cs) =
     (match_word prev pat (c # cs) \<or> search_word (Some c) pat cs)"

definition re_search_skill :: "ustring \<Rightarrow> ustring \<Rightarrow> bool" where
  "re_search_skill skill txt = search_word None skill txt"

text \<open>
  The loop over the candidates; \<open>skills_set\<close> is the Python set, kept as a list without
  repetitions (\<open>List.insert\<close> adds an element only when it is not there).
\<close>

fun collect_skills :: "ustring list \<Rightarrow> ustring \<Rightarrow> ustring \<Rightarrow> ustring list \<Rightarrow> ustring list" where
  "collect_skills [] text_lower tags_lower skills_set = skills_set"
| "collect_skills (skill # candidates) text_lower tags_lower skills_set =
     collect_skills candidates text_lower tags_lower
       (if re_search_skill (lower skill) text_lower \<or> re_search_skill (lower skill) tags_lower
        then List.insert (lower skill) skills_set
        else skills_set)"

text \<open>
  \<^verbatim>\<open>extract_skills(text, tags, extra_skills=None)\<close>. \<^verbatim>\<open>sorted\<close> orders strings by
  code point, a proper prefix first: the lexicographic order of lists.
\<close>

definition extract_skills :: "ustring \<Rightarrow> ustring \<Rightarrow> ustring list option \<Rightarrow> ustring list" where
  "extract_skills txt tags extra_skills =
    (let text_lower = lower txt;
         tag_candidates = tags;
         candidates = COMMON_SKILLS @ (case extra_skills of None \<Rightarrow> [] | Some xs \<Rightarrow> xs)
     in sort (collect_skills candidates text_lower (lower tag_candidates) []))"

section \<open>Salary parser\<close>

text \<open>
  A Python float is an IEEE double. The values that arise here are parsed from digit
  strings and multiplied by 1000, so none is negative and none is NaN: a float is a
  real number that a double can hold, or the positive infinity. \<^verbatim>\<open>min\<close> and
  \<^verbatim>\<open>max\<close> compare them in this order.
\<close>

datatype pyfloat = Finite real | Infinity

instantiation pyfloat :: linorder
begin

fun less_eq_pyfloat :: "pyfloat \<Rightarrow> pyfloat \<Rightarrow> bool" where
  "less_eq_pyfloat (Finite x) (Finite y) = (x \<le> y)"
| "less_eq_pyfloat a Infinity = True"
| "less_eq_pyfloat Infinity (Finite y) = False"

definition less_pyfloat :: "pyfloat \<Rightarrow> pyfloat \<Rightarrow> bool" where
  "less_pyfloat a b \<longleftrightarrow> a \<le> b \<and> \<not> b \<le> a"

instance
proof
  fix a b c :: pyfloat
  show "a < b \<longleftrightarrow> a \<le> b \<and> \<not> b \<le> a"
    by (simp add: less_pyfloat_def)
  show "a \<le> a"
    by (cases a) simp_all
  show "a \<le> b \<Longrightarrow> b \<le> c \<Longrightarrow> a \<le> c"
    by (cases a; cases b; cases c) simp_all
  show "a \<le> b \<Longrightarrow> b \<le> a \<Longrightarrow> a = b"
    by (cases a; cases b) simp_all
  show "a \<le> b \<or> b \<le> a"
    by (cases a; cases b) auto
qed

end

text \<open>
  \<^verbatim>\<open>float(num)\<close> and the product of two floats are correctly rounded: the result is
  the double nearest to the exact value, the one with the even significand when two are
  equally near, and the infinity from \<open>2 ^ 1024\<close> on. \<open>to_double\<close> is this rounding
  of a real that is not negative. \<open>exponent x\<close> is the \<open>e\<close> with
  \<open>2 ^ e \<le> x < 2 ^ (e + 1)\<close>, found from the number of bits of the whole part of
  \<open>x\<close> or of \<open>1 / x\<close>. The doubles near \<open>x\<close> are the multiples of \<open>ulp x\<close>, which is
  \<open>2 ^ (e - 52)\<close>, and \<open>2 ^ (- 1074)\<close> below the smallest normal double.
\<close>

fun bit_length :: "nat \<Rightarrow> nat" where
  "bit_length n = (if n = 0 then 0 else Suc (bit_length (n div 2)))"

declare bit_length.simps [simp del]

definition exponent :: "real \<Rightarrow> int" where
  "exponent x =
    (if 1 \<le> x then int (bit_length (nat \<lfloor>x\<rfloor>)) - 1
     else - int (bit_length (nat (\<lceil>1 / x\<rceil> - 1))))"

definition ulp :: "real \<Rightarrow> real" where
  "ulp x =
    (let e = max (exponent x) (- 1022)
     in if 52 \<le> e then 2 ^ nat (e - 52) else 1 / 2 ^ nat (52 - e))"

definition round_even :: "real \<Rightarrow> int" where
  "round_even y =
    (let f = \<lfloor>y\<rfloor>;
         d = y - of_int f
     in if d < 1 / 2 then f
        else if 1 / 2 < d then f + 1
        else if even f then f else f + 1)"

definition to_double :: "real \<Rightarrow> pyfloat" where
  "to_double x =
    (if x \<le> 0 then Finite 0
     else
       let r = of_int (round_even (x / ulp x)) * ulp x
       in if 2 ^ 1024 \<le> r then Infinity else Finite r)"

text \<open>\<^verbatim>\<open>v * 1000.0\<close>\<close>

definition mul_1000 :: "pyfloat \<Rightarrow> pyfloat" where
  "mul_1000 v = (case v of Finite x \<Rightarrow> to_double (x * 1000) | Infinity \<Rightarrow> Infinity)"

text \<open>The result dict \<^verbatim>\<open>{"min": ..., "max": ..., "currency": ...}\<close>.\<close>

record salary =
  min_v :: "pyfloat option"
  max_v :: "pyfloat option"
  currency :: "ustring option"

text \<open>\<^verbatim>\<open>s.replace(",", "")\<close>\<close>

definition remove_commas :: "ustring \<Rightarrow> ustring" where
  "remove_commas s = filter (\<lambda>c. c \<noteq> 44) s"

text \<open>
  \<^verbatim>\<open>\d\<close> matches every decimal digit of Unicode (the category Nd), and \<^verbatim>\<open>float\<close>
  reads every one of them with its value. Beyond ASCII they are a table of the
  interpreter's Unicode database: the parameter \<open>nd\<close> gives the value of each such
  digit and \<open>None\<close> for every other code point.

  The parser looks in the lower-cased text for digits, the dot, \<open>k\<close>, \<open>usd\<close> and
  \<open>eur\<close>. No digit has a case, and the only character beyond ASCII that
  \<^verbatim>\<open>str.lower\<close> turns into one of those letters is the Kelvin sign, so \<open>lower\<close> is as
  good as \<^verbatim>\<open>str.lower\<close> here.
\<close>

type_synonym digit_table = "nat \<rightharpoonup> nat"

definition is_decimal :: "digit_table \<Rightarrow> nat \<Rightarrow> bool" where
  "is_decimal nd c \<longleftrightarrow> is_digit c \<or> (128 \<le> c \<and> nd c \<noteq> None)"

definition decimal_value :: "digit_table \<Rightarrow> nat \<Rightarrow> nat" where
  "decimal_value nd c =
    (if is_digit c then c - 48 else (case nd c of None \<Rightarrow> 0 | Some v \<Rightarrow> v))"

text \<open>
  One match of \<^verbatim>\<open>(\d+(?:\.\d+)?)(k)?\<close> at the start of a text: the longest run of
  digits, then a dot with the longest run of digits after it when there is at least one,
  then a \<open>k\<close> when there is one. Each part is greedy and what follows it is optional, so
  the first attempt of the matcher succeeds and nothing is given back.

  \<open>match_fraction\<close> is \<^verbatim>\<open>(?:\.\d+)?\<close> and \<open>match_k\<close> is \<^verbatim>\<open>(k)?\<close>: each returns what
  it matched and the rest of the text. \<open>match_number\<close> returns the two groups (the
  second as the truth of \<^verbatim>\<open>k == "k"\<close>) and the rest, or \<open>None\<close> when the text does not
  start with a digit.
\<close>

definition match_fraction :: "digit_table \<Rightarrow> ustring \<Rightarrow> ustring \<times> ustring" where
  "match_fraction nd r1 =
    (case r1 of
       [] \<Rightarrow> ([], r1)
     | c # r \<Rightarrow>
         if c = 46 \<and> takeWhile (is_decimal nd) r \<noteq> []
         then (46 # takeWhile (is_decimal nd) r, dropWhile (is_decimal nd) r)
         else ([], r1))"

definition match_k :: "ustring \<Rightarrow> bool \<times> ustring" where
  "match_k r2 =
    (case r2 of
       [] \<Rightarrow> (False, r2)
     | c # r \<Rightarrow> if c = 107 then (True, r) else (False, r2))"

definition match_number :: "digit_table \<Rightarrow> ustring \<Rightarrow> ((ustring \<times> bool) \<times> ustring) option" where
  "match_number nd s =
    (let ds = takeWhile (is_decimal nd) s;
         r1 = dropWhile (is_decimal nd) s
     in if ds = [] then None
        else
          let (fr, r2) = match_fraction nd r1;
              (k, r3) = match_k r2
          in Some ((ds @ fr, k), r3))"

text \<open>A match is not empty, so the scan below ends.\<close>

lemma match_fraction_shorter: "length (snd (match_fraction nd r)) \<le> length r"
  by (cases r) (auto simp: match_fraction_def intro: le_SucI length_dropWhile_le)

lemma match_k_shorter: "length (snd (match_k r)) \<le> length r"
  by (cases r) (auto simp: match_k_def)

lemma match_number_shorter:
  "match_number nd s = Some (m, rest) \<Longrightarrow> length rest < length s"
proof -
  assume a: "match_number nd s = Some (m, rest)"
  let ?ds = "takeWhile (is_decimal nd) s"
  let ?r1 = "dropWhile (is_decimal nd) s"
  from a have ne: "?ds \<noteq> []"
    by (auto simp: match_number_def Let_def split: if_splits)
  have "length s = length ?ds + length ?r1"
    by (metis length_append takeWhile_dropWhile_id)
  with ne have lt: "length ?r1 < length s"
    by simp
  from a ne have "rest = snd (match_k (snd (match_fraction nd ?r1)))"
    by (simp add: match_number_def Let_def split: prod.splits)
  then have "length rest \<le> length ?r1"
    using match_k_shorter [of "snd (match_fraction nd ?r1)"] match_fraction_shorter [of nd ?r1]
    by simp
  with lt show ?thesis by simp
qed

text \<open>
  \<^verbatim>\<open>re.findall\<close>: the matches from left to right, each search starting where the
  match before it ended.
\<close>

function findall_numbers :: "digit_table \<Rightarrow> ustring \<Rightarrow> (ustring \<times> bool) list" where
  "findall_numbers nd [] = []"
| "findall_numbers nd (c # cs) =
     (case match_number nd (c # cs) of
        None \<Rightarrow> findall_numbers nd cs
      | Some (m, rest) \<Rightarrow> m # findall_numbers nd rest)"
  by pat_completeness auto
termination
  by (relation "measure (\<lambda>(nd, s). length s)") (auto dest: match_number_shorter)

text \<open>
  \<^verbatim>\<open>float(num)\<close> on a match of \<^verbatim>\<open>\d+(?:\.\d+)?\<close>: the double nearest to the number
  the digits write.
\<close>

definition digits_value :: "digit_table \<Rightarrow> ustring \<Rightarrow> nat" where
  "digits_value nd ds = foldl (\<lambda>n c. 10 * n + decimal_value nd c) 0 ds"

definition float_of :: "digit_table \<Rightarrow> ustring \<Rightarrow> pyfloat" where
  "float_of nd num =
    (let ip = takeWhile (is_decimal nd) num;
         fp = drop (Suc (length ip)) num
     in to_double (real (digits_value nd ip) + real (digits_value nd fp) / 10 ^ length fp))"

text \<open>The loop \<^verbatim>\<open>for num, k in nums\<close> that fills \<^verbatim>\<open>values\<close>.\<close>

definition salary_values :: "digit_table \<Rightarrow> (ustring \<times> bool) list \<Rightarrow> pyfloat list" where
  "salary_values nd nums =
     map (\<lambda>(num, k). if k then mul_1000 (float_of nd num) else float_of nd num) nums"

text \<open>The builtins \<^verbatim>\<open>min\<close> and \<^verbatim>\<open>max\<close> on a list that is not empty.\<close>

definition py_min :: "pyfloat \<Rightarrow> pyfloat list \<Rightarrow> pyfloat" where
  "py_min v vs = foldl (\<lambda>m x. if x < m then x else m) v vs"

definition py_max :: "pyfloat \<Rightarrow> pyfloat list \<Rightarrow> pyfloat" where
  "py_max v vs = foldl (\<lambda>m x. if x > m then x else m) v vs"

text \<open>The literal the source tests for the Euro: U+00E2, U+201A, U+00AC.\<close>

definition euro_literal :: ustring where
  "euro_literal = [226, 8218, 172]"

definition detect_currency :: "ustring \<Rightarrow> ustring \<Rightarrow> ustring option" where
  "detect_currency s s_clean =
    (if str_in (str ''$'') s \<or> str_in (str ''usd'') s_clean then Some (str ''USD'')
     else if str_in euro_literal s \<or> str_in (str ''eur'') s_clean then Some (str ''EUR'')
     else None)"

text \<open>\<^verbatim>\<open>parse_salary(s: Optional[str])\<close>\<close>

definition parse_salary :: "digit_table \<Rightarrow> ustring option \<Rightarrow> salary" where
  "parse_salary nd s =
    (case s of
       None \<Rightarrow> \<lparr>min_v = None, max_v = None, currency = None\<rparr>
     | Some s0 \<Rightarrow>
         if s0 = [] \<or> strip s0 = [] then \<lparr>min_v = None, max_v = None, currency = None\<rparr>
         else
           let s_clean = lower (remove_commas s0);
               cur = detect_currency s0 s_clean;
               nums = findall_numbers nd s_clean;
               vals = salary_values nd nums
           in (case vals of
                 [] \<Rightarrow> \<lparr>min_v = None, max_v = None, currency = cur\<rparr>
               | [v] \<Rightarrow> \<lparr>min_v = Some v, max_v = Some v, currency = cur\<rparr>
               | v # vs \<Rightarrow> \<lparr>min_v = Some (py_min v vs), max_v = Some (py_max v vs),
                            currency = cur\<rparr>))"

section \<open>Record transformer\<close>

text \<open>
  A raw record is a dict from field names to texts; \<^verbatim>\<open>r.get(k)\<close> is \<open>None\<close> for a
  key that is absent and for a key that holds \<^verbatim>\<open>None\<close>, so the dict is the partial
  map \<open>r\<close> and \<^verbatim>\<open>r.get(k)\<close> is \<open>r k\<close>.
\<close>

type_synonym raw_record = "string \<rightharpoonup> ustring"

text \<open>\<^verbatim>\<open>a or b\<close>: \<open>a\<close> when it is truthy (a string that is not empty), else \<open>b\<close>.\<close>

definition py_or :: "ustring option \<Rightarrow> ustring option \<Rightarrow> ustring option" where
  "py_or a b = (case a of None \<Rightarrow> b | Some s \<Rightarrow> if s = [] then b else a)"

text \<open>\<^verbatim>\<open>a or ""\<close>, which is always a string.\<close>

definition or_empty :: "ustring option \<Rightarrow> ustring" where
  "or_empty a = (case a of None \<Rightarrow> [] | Some s \<Rightarrow> s)"

text \<open>One row of the frame; \<open>'p\<close> is the type of the publication date column.\<close>

record 'p row =
  row_id :: "ustring option"
  url :: "ustring option"
  title :: ustring
  normalized_title :: ustring
  company_name :: ustring
  category :: "ustring option"
  job_type :: "ustring option"
  publication_date :: 'p
  location :: ustring
  remote :: bool
  salary_min :: "pyfloat option"
  salary_max :: "pyfloat option"
  salary_currency :: "ustring option"
  description :: ustring
  tags :: ustring
  skills :: ustring
  seniority :: ustring
  raw_record :: raw_record

text \<open>
  The body of the loop \<^verbatim>\<open>for r in records\<close>: the dict appended to \<^verbatim>\<open>out\<close>. \<open>nd\<close>
  is the table of the digits beyond ASCII that \<open>parse_salary\<close> reads.
\<close>

definition transform_record ::
    "digit_table \<Rightarrow> (ustring \<Rightarrow> 'd option) \<Rightarrow> ustring list option \<Rightarrow> raw_record
       \<Rightarrow> 'd option row" where
  "transform_record nd date_parser extra_skills r =
    (let desc = clean_text (Some (or_empty (py_or (r ''description_text'') (r ''description''))));
         tgs = or_empty (r ''tags'');
         ttl = clean_text (Some (or_empty (r ''title'')));
         company = clean_text (Some (or_empty (py_or (r ''company_name'') (r ''company''))));
         loc = standardize_location
                 (Some (or_empty (py_or (r ''candidate_required_location'') (r ''location''))));
         pub_date = parse_publication_date date_parser
                      (py_or (py_or (r ''publication_date'') (r ''date'')) None);
         sal = parse_salary nd (r ''salary'');
         skls = extract_skills desc tgs extra_skills;
         snr = infer_seniority (Some ttl);
         remote_flag = (if loc = str ''Remote'' then True else False)
     in \<lparr>row_id = r ''id'',
         url = r ''url'',
         title = ttl,
         normalized_title = lower ttl,
         company_name = company,
         category = r ''category'',
         job_type = r ''job_type'',
         publication_date = pub_date,
         location = loc,
         remote = remote_flag,
         salary_min = min_v sal,
         salary_max = max_v sal,
         salary_currency = currency sal,
         description = desc,
         tags = tgs,
         skills = join (str '', '') skls,
         seniority = snr,
         raw_record = r\<rparr>)"

section \<open>Deduplicator\<close>

text \<open>
  The frame is the list of its rows. \<^verbatim>\<open>pandas\<close> is not part of the repository. A frame
  built from an empty list has no columns; one built from a list of dicts has the keys
  of the dicts as columns. \<^verbatim>\<open>drop_duplicates(subset=...)\<close> keeps, in the order of the
  frame, the first row of each group of rows equal on the subset, missing values being
  equal to one another; on an empty frame it returns the frame.
\<close>

definition has_columns :: "'a list \<Rightarrow> bool" where
  "has_columns df \<longleftrightarrow> df \<noteq> []"

fun drop_seen :: "('a \<Rightarrow> 'k) \<Rightarrow> 'k list \<Rightarrow> 'a list \<Rightarrow> 'a list" where
  "drop_seen key seen [] = []"
| "drop_seen key seen (x # xs) =
     (if key x \<in> set seen then drop_seen key seen xs
      else x # drop_seen key (key x # seen) xs)"

definition drop_duplicates :: "('a \<Rightarrow> 'k) \<Rightarrow> 'a list \<Rightarrow> 'a list" where
  "drop_duplicates key df = drop_seen key [] df"

text \<open>The subset \<^verbatim>\<open>["title", "company_name", "location"]\<close>.\<close>

definition triple :: "'p row \<Rightarrow> ustring \<times> ustring \<times> ustring" where
  "triple x = (title x, company_name x, location x)"

text \<open>
  The deduplication of \<^verbatim>\<open>transform_records\<close>:
  \<^verbatim>\<open>if "id" in df.columns and df["id"].notna().any()\<close> chooses the key for the whole
  frame.
\<close>

definition dedupe :: "'p row list \<Rightarrow> 'p row list" where
  "dedupe df =
    (if has_columns df \<and> list_ex (\<lambda>x. row_id x \<noteq> None) df
     then drop_duplicates row_id df
     else drop_duplicates triple df)"

text \<open>The last statement: each date to its ISO text, a missing one stays missing.\<close>

definition isoformat_row :: "('d \<Rightarrow> ustring) \<Rightarrow> 'd option row \<Rightarrow> ustring option row" where
  "isoformat_row isoformat x =
    \<lparr>row_id = row_id x, url = url x, title = title x,
     normalized_title = normalized_title x, company_name = company_name x,
     category = category x, job_type = job_type x,
     publication_date = map_option isoformat (publication_date x),
     location = location x, remote = remote x, salary_min = salary_min x,
     salary_max = salary_max x, salary_currency = salary_currency x,
     description = description x, tags = tags x, skills = skills x,
     seniority = seniority x, raw_record = raw_record x\<rparr>"

text \<open>The rows of \<^verbatim>\<open>out\<close>, one \<^verbatim>\<open>append\<close> for each turn of the loop.\<close>

definition build_rows ::
    "digit_table \<Rightarrow> (ustring \<Rightarrow> 'd option) \<Rightarrow> ustring list option \<Rightarrow> raw_record list
       \<Rightarrow> 'd option row list" where
  "build_rows nd date_parser extra_skills records =
     map (transform_record nd date_parser extra_skills) records"

text \<open>
  \<^verbatim>\<open>transform_records(records, extra_skills=None)\<close>. Reading the column
  \<^verbatim>\<open>publication_date\<close> of a frame that has no columns raises \<^verbatim>\<open>KeyError\<close>.
\<close>

definition transform_records ::
    "digit_table \<Rightarrow> (ustring \<Rightarrow> 'd option) \<Rightarrow> ('d \<Rightarrow> ustring) \<Rightarrow> raw_record list
       \<Rightarrow> ustring list option \<Rightarrow> error + ustring option row list" where
  "transform_records nd date_parser isoformat records extra_skills =
    (let out = build_rows nd date_parser extra_skills records;
         df = dedupe out
     in if has_columns df then Inr (map (isoformat_row isoformat) df)
        else Inl (KeyError ''publication_date''))"

section \<open>Sample inputs and reference definitions\<close>

text \<open>
  Three raw records of which only the first has an identifier, and three without any;
  the last of these repeats the title of the first. No record has a date, so the
  date parser is never asked: \<open>no_dates\<close> stands in for it. No text in them has a
  character beyond ASCII, so the table of the other digits is never asked either: the
  empty table \<open>no_digits\<close> stands in for it.
\<close>

definition mixed_records :: "raw_record list" where
  "mixed_records =
    [[''id'' \<mapsto> str ''1'', ''title'' \<mapsto> str ''a''],
     [''title'' \<mapsto> str ''b''],
     [''title'' \<mapsto> str ''c'']]"

definition anonymous_records :: "raw_record list" where
  "anonymous_records =
    [[''title'' \<mapsto> str ''b''],
     [''title'' \<mapsto> str ''c''],
     [''title'' \<mapsto> str ''b'', ''url'' \<mapsto> str ''u'']]"

definition no_dates :: "ustring \<Rightarrow> unit option" where
  "no_dates s = None"

definition no_digits :: digit_table where
  "no_digits c = None"

text \<open>
  The shape of the numbers in a salary range such as \<^verbatim>\<open>80k - 120.5k\<close>: digits, and
  after them possibly a dot and more digits. It is the form the claims about
  \<open>parse_salary\<close> take their inputs in.
\<close>

definition decimal_numeral :: "ustring \<Rightarrow> bool" where
  "decimal_numeral a \<longleftrightarrow>
    (let ip = takeWhile is_digit a;
         r = dropWhile is_digit a
     in ip \<noteq> [] \<and>
        (case r of
           [] \<Rightarrow> True
         | c # fp \<Rightarrow> c = 46 \<and> fp \<noteq> [] \<and> list_all is_digit fp))"

text \<open>The number such a numeral writes.\<close>

definition numeral_value :: "ustring \<Rightarrow> real" where
  "numeral_value a =
    (let ip = takeWhile is_digit a;
         fp = drop (Suc (length ip)) a
     in real (foldl (\<lambda>n c. 10 * n + (c - 48)) 0 ip) +
        real (foldl (\<lambda>n c. 10 * n + (c - 48)) 0 fp) / 10 ^ length fp)"



text \<open>A raw record with a salary range written from the larger end.\<close>

definition range_record :: raw_record where
  "range_record = [''title'' \<mapsto> str ''Analyst'', ''salary'' \<mapsto> str ''120k - 80k'']"

section \<open>Properties of the text operations\<close>

text \<open>\<open>str_in\<close> decides whether the text splits around the key.\<close>

lemma str_in_iff_sublist: "str_in k t \<longleftrightarrow> sublist k t"
  by (induction t) (auto simp: sublist_Cons_right)

lemma sublist_set: "sublist k t \<Longrightarrow> set k \<subseteq> set t"
  by (auto simp: sublist_def)

lemma lower_Nil_iff: "lower s = [] \<longleftrightarrow> s = []"
  by (simp add: lower_def)

lemma lower_idem: "lower (lower s) = lower s"
  by (simp add: lower_def lower_cp_def)

text \<open>The definitions that evaluate the text operations on a concrete text.\<close>

lemmas text_eval = str_def lower_def lower_cp_def upper_cp_def strip_def is_space_def
  is_digit_def is_cased_def is_word_def title_case_def



section \<open>Properties of the seniority classifier\<close>

lemma scan_keywords_first:
  "kvs = pre @ (k, v) # post \<Longrightarrow> sublist k t \<Longrightarrow> \<forall>k' \<in> fst ` set pre. \<not> sublist k' t
    \<Longrightarrow> scan_keywords kvs t = v"
  by (induction pre arbitrary: kvs) (auto simp: str_in_iff_sublist)

lemma seniority_keys_nonempty: "(k, v) \<in> set SENIORITY_MAP \<Longrightarrow> k \<noteq> []"
  by (auto simp: SENIORITY_MAP_def str_def)

text \<open>
  C4. For every title, \<open>infer_seniority\<close> returns the bucket of the first keyword of
  the table that occurs in the lower-cased title: "senior" when one of senior, sr.,
  lead, principal, staff occurs; else "junior" when junior or jr. occurs; else "intern"
  when intern occurs; else "manager" when manager occurs; else "mid". An absent title
  and the empty title give the empty string.
\<close>

theorem infer_seniority_table:
  "infer_seniority t =
    (case t of
       None \<Rightarrow> []
     | Some ti \<Rightarrow>
         if ti = [] then []
         else if sublist (str ''senior'') (lower ti) \<or> sublist (str ''sr.'') (lower ti) \<or>
                 sublist (str ''lead'') (lower ti) \<or> sublist (str ''principal'') (lower ti) \<or>
                 sublist (str ''staff'') (lower ti) then str ''senior''
         else if sublist (str ''junior'') (lower ti) \<or> sublist (str ''jr.'') (lower ti)
           then str ''junior''
         else if sublist (str ''intern'') (lower ti) then str ''intern''
         else if sublist (str ''manager'') (lower ti) then str ''manager''
         else str ''mid'')"
  by (simp add: infer_seniority_def SENIORITY_MAP_def str_in_iff_sublist split: option.split)

theorem infer_seniority_table_witness:
  "infer_seniority (Some (str ''Junior Data Analyst'')) = str ''junior''"
proof -
  have "\<not> str_in (str ''senior'') (lower (str ''Junior Data Analyst''))"
       "\<not> str_in (str ''sr.'') (lower (str ''Junior Data Analyst''))"
       "\<not> str_in (str ''lead'') (lower (str ''Junior Data Analyst''))"
       "\<not> str_in (str ''principal'') (lower (str ''Junior Data Analyst''))"
       "\<not> str_in (str ''staff'') (lower (str ''Junior Data Analyst''))"
       "str_in (str ''junior'') (lower (str ''Junior Data Analyst''))"
       "str ''Junior Data Analyst'' \<noteq> []"
    by (simp_all add: text_eval)
  then show ?thesis
    using infer_seniority_table [of "Some (str ''Junior Data Analyst'')"]
    by (simp add: str_in_iff_sublist)
qed

text \<open>
  C10. The keywords are matched as plain substrings. Whenever the lower-cased title
  splits as \<open>p @ k @ s\<close> around a keyword \<open>k\<close> of the table, whatever the characters
  next to it, and no keyword listed before \<open>k\<close> occurs, the result is the bucket of
  \<open>k\<close>. So a title that contains "international", and no keyword of the senior and
  junior groups, is classified "intern", also when it contains "manager".
\<close>

theorem infer_seniority_substring:
  "(\<forall>pre k v post p s.
      SENIORITY_MAP = pre @ (k, v) # post \<and> lower ti = p @ k @ s \<and>
      (\<forall>k' \<in> fst ` set pre. \<not> sublist k' (lower ti))
      \<longrightarrow> infer_seniority (Some ti) = v) \<and>
   (sublist (str ''international'') (lower ti) \<and>
    \<not> sublist (str ''senior'') (lower ti) \<and> \<not> sublist (str ''sr.'') (lower ti) \<and>
    \<not> sublist (str ''lead'') (lower ti) \<and> \<not> sublist (str ''principal'') (lower ti) \<and>
    \<not> sublist (str ''staff'') (lower ti) \<and> \<not> sublist (str ''junior'') (lower ti) \<and>
    \<not> sublist (str ''jr.'') (lower ti)
    \<longrightarrow> infer_seniority (Some ti) = str ''intern'')"
proof (intro conjI allI impI)
  fix pre k v post p s
  assume a: "SENIORITY_MAP = pre @ (k, v) # post \<and> lower ti = p @ k @ s \<and>
      (\<forall>k' \<in> fst ` set pre. \<not> sublist k' (lower ti))"
  then have m: "SENIORITY_MAP = pre @ (k, v) # post"
    and l: "lower ti = p @ k @ s"
    and n: "\<forall>k' \<in> fst ` set pre. \<not> sublist k' (lower ti)"
    by blast+
  from m have "set SENIORITY_MAP = set (pre @ (k, v) # post)" by metis
  then have "(k, v) \<in> set SENIORITY_MAP" by simp
  then have "k \<noteq> []" by (rule seniority_keys_nonempty)
  with l have ne: "ti \<noteq> []" by (auto simp: lower_def)
  from l have "sublist k (lower ti)" by (auto simp: sublist_def)
  then have "scan_keywords SENIORITY_MAP (lower ti) = v"
    using n by (rule scan_keywords_first [OF m])
  with ne show "infer_seniority (Some ti) = v"
    by (simp add: infer_seniority_def)
next
  assume a: "sublist (str ''international'') (lower ti) \<and>
    \<not> sublist (str ''senior'') (lower ti) \<and> \<not> sublist (str ''sr.'') (lower ti) \<and>
    \<not> sublist (str ''lead'') (lower ti) \<and> \<not> sublist (str ''principal'') (lower ti) \<and>
    \<not> sublist (str ''staff'') (lower ti) \<and> \<not> sublist (str ''junior'') (lower ti) \<and>
    \<not> sublist (str ''jr.'') (lower ti)"
  have "sublist (str ''intern'') (str ''international'')"
    unfolding str_in_iff_sublist [symmetric] by (simp add: text_eval)
  with a have i: "sublist (str ''intern'') (lower ti)"
    using sublist_order.order_trans by blast
  then have "ti \<noteq> []" by (auto simp: lower_def str_def)
  with a i show "infer_seniority (Some ti) = str ''intern''"
    by (simp add: infer_seniority_def SENIORITY_MAP_def str_in_iff_sublist)
qed

theorem infer_seniority_substring_witness:
  "sublist (str ''international'') (lower (str ''International Sales Manager'')) \<and>
   sublist (str ''manager'') (lower (str ''International Sales Manager'')) \<and>
   lower (str ''International Sales Manager'')
     = [] @ str ''intern'' @ str ''ational sales manager'' \<and>
   infer_seniority (Some (str ''International Sales Manager'')) = str ''intern''"
proof -
  let ?t = "lower (str ''International Sales Manager'')"
  have h: "str_in (str ''international'') ?t" "str_in (str ''manager'') ?t"
       "\<not> str_in (str ''senior'') ?t" "\<not> str_in (str ''sr.'') ?t"
       "\<not> str_in (str ''lead'') ?t" "\<not> str_in (str ''principal'') ?t"
       "\<not> str_in (str ''staff'') ?t" "\<not> str_in (str ''junior'') ?t"
       "\<not> str_in (str ''jr.'') ?t"
    by (simp_all add: text_eval)
  have l: "?t = [] @ str ''intern'' @ str ''ational sales manager''"
    by (simp add: text_eval)
  have m: "SENIORITY_MAP = take 7 SENIORITY_MAP @ (str ''intern'', str ''intern'') # drop 8 SENIORITY_MAP"
    by (simp add: SENIORITY_MAP_def)
  have n: "\<forall>k' \<in> fst ` set (take 7 SENIORITY_MAP). \<not> sublist k' ?t"
    using h by (simp add: SENIORITY_MAP_def str_in_iff_sublist)
  have "infer_seniority (Some (str ''International Sales Manager'')) = str ''intern''"
    using infer_seniority_substring [of "str ''International Sales Manager''"] m l n
    by blast
  moreover have "infer_seniority (Some (str ''International Sales Manager'')) = str ''intern''"
    using infer_seniority_substring [of "str ''International Sales Manager''"] h
    by (simp add: str_in_iff_sublist)
  ultimately show ?thesis
    using h l by (simp add: str_in_iff_sublist)
qed

section \<open>Properties of the field normalizer\<close>





















section \<open>Properties of the skill extractor\<close>

lemmas skill_eval = extract_skills_def COMMON_SKILLS_def re_search_skill_def match_word_def
  word_boundary_def first_char_def Let_def

lemma collect_skills_set:
  "set (collect_skills cs t g acc) \<subseteq> set acc \<union> lower ` set cs"
proof (induction cs arbitrary: acc)
  case (Cons a cs)
  show ?case
    using Cons.IH [of "List.insert (lower a) acc"] Cons.IH [of acc]
    by auto
qed simp

lemma collect_skills_distinct:
  "distinct acc \<Longrightarrow> distinct (collect_skills cs t g acc)"
  by (induction cs arbitrary: acc) auto

lemma common_skills_nonempty: "[] \<notin> set COMMON_SKILLS"
  by (simp add: COMMON_SKILLS_def str_def)

text \<open>
  C7, as stated, fails: the pattern built from an empty skill name is \<^verbatim>\<open>\b\b\<close>,
  which matches at the first word boundary of any text that holds a word, so an empty
  name among the extra skills comes back as an empty entry.
\<close>

theorem extract_skills_empty_entry: "extract_skills (str ''a'') [] (Some [[]]) = [[]]"
  by (simp add: text_eval skill_eval)

text \<open>
  C7, amended. When no extra skill name is the empty string, the result of
  \<open>extract_skills\<close> is sorted in ascending order, has no duplicate, and each of its
  entries is in lower case and is not empty.
\<close>

theorem extract_skills_sorted_distinct:
  assumes "case extra_skills of None \<Rightarrow> True | Some xs \<Rightarrow> [] \<notin> set xs"
  shows "sorted (extract_skills txt tgs extra_skills) \<and>
         distinct (extract_skills txt tgs extra_skills) \<and>
         (\<forall>x \<in> set (extract_skills txt tgs extra_skills). lower x = x \<and> x \<noteq> [])"
proof -
  let ?cands = "COMMON_SKILLS @ (case extra_skills of None \<Rightarrow> [] | Some xs \<Rightarrow> xs)"
  let ?acc = "collect_skills ?cands (lower txt) (lower tgs) []"
  have e: "extract_skills txt tgs extra_skills = sort ?acc"
    by (simp add: extract_skills_def)
  have ne: "[] \<notin> set ?cands"
    using assms common_skills_nonempty by (auto split: option.splits)
  have sub: "set ?acc \<subseteq> lower ` set ?cands"
    using collect_skills_set [of ?cands "lower txt" "lower tgs" "[]"] by simp
  have low: "lower x = x \<and> x \<noteq> []" if "x \<in> set ?acc" for x
  proof -
    from that sub obtain c where c: "c \<in> set ?cands" "x = lower c" by blast
    with ne have "c \<noteq> []" by metis
    with c show ?thesis by (simp add: lower_idem lower_Nil_iff)
  qed
  have "set (sort ?acc) = set ?acc"
    by simp
  with low have q: "\<forall>x \<in> set (sort ?acc). lower x = x \<and> x \<noteq> []"
    by blast
  have d: "distinct (sort ?acc)"
    by (simp add: collect_skills_distinct)
  have "sorted (sort ?acc)"
    by (rule sorted_sort)
  with d q show ?thesis
    unfolding e by blast
qed

theorem extract_skills_sorted_distinct_witness:
  "[] \<notin> set [str ''dbt''] \<and>
   extract_skills (str ''SQL, dbt and Python'') (str ''aws'') (Some [str ''dbt''])
     = [str ''aws'', str ''dbt'', str ''python'', str ''sql''] \<and>
   sorted (extract_skills (str ''SQL, dbt and Python'') (str ''aws'') (Some [str ''dbt''])) \<and>
   distinct (extract_skills (str ''SQL, dbt and Python'') (str ''aws'') (Some [str ''dbt'']))"
proof -
  have h: "case Some [str ''dbt''] of None \<Rightarrow> True | Some xs \<Rightarrow> [] \<notin> set xs"
    by (simp add: str_def)
  have v: "extract_skills (str ''SQL, dbt and Python'') (str ''aws'') (Some [str ''dbt''])
     = [str ''aws'', str ''dbt'', str ''python'', str ''sql'']"
    by (simp add: text_eval skill_eval)
  show ?thesis
    using extract_skills_sorted_distinct [OF h, of "str ''SQL, dbt and Python''" "str ''aws''"] h v
    by simp
qed

section \<open>Properties of the deduplicator\<close>

lemma drop_seen_keys:
  "set (map key (drop_seen key seen xs)) = set (map key xs) - set seen"
  by (induction xs arbitrary: seen) auto

lemma drop_seen_distinct: "distinct (map key (drop_seen key seen xs))"
proof (induction xs arbitrary: seen)
  case (Cons x xs)
  have "key x \<notin> set (map key (drop_seen key (key x # seen) xs))"
    unfolding drop_seen_keys by simp
  with Cons show ?case by simp
qed simp

lemma drop_seen_subseq: "subseq (drop_seen key seen xs) xs"
  by (induction xs arbitrary: seen) auto

lemma drop_seen_set: "set (drop_seen key seen xs) \<subseteq> set xs"
  by (induction xs arbitrary: seen) auto

lemma drop_seen_id:
  "distinct (map key xs) \<Longrightarrow> set (map key xs) \<inter> set seen = {} \<Longrightarrow> drop_seen key seen xs = xs"
  by (induction xs arbitrary: seen) auto

lemma drop_seen_nths:
  "drop_seen key seen xs =
     nths xs {i. i < length xs \<and> key (xs ! i) \<notin> set seen \<and> (\<forall>j<i. key (xs ! j) \<noteq> key (xs ! i))}"
proof (induction xs arbitrary: seen)
  case Nil
  show ?case by simp
next
  case (Cons x xs)
  let ?A = "\<lambda>sn ys. {i. i < length ys \<and> key (ys ! i) \<notin> set sn \<and> (\<forall>j<i. key (ys ! j) \<noteq> key (ys ! i))}"
  have shift: "{j. Suc j \<in> ?A seen (x # xs)} = ?A (key x # seen) xs"
    by (auto simp: less_Suc_eq_0_disj)
  have zero: "0 \<in> ?A seen (x # xs) \<longleftrightarrow> key x \<notin> set seen"
    by simp
  show ?case
  proof (cases "key x \<in> set seen")
    case True
    then have "?A (key x # seen) xs = ?A seen xs" by auto
    with True show ?thesis
      using Cons.IH [of seen] shift zero by (simp add: nths_Cons)
  next
    case False
    then show ?thesis
      using Cons.IH [of "key x # seen"] shift zero by (simp add: nths_Cons)
  qed
qed

lemma drop_seen_null:
  "filter (\<lambda>x. key x = None) (drop_seen key seen xs) =
     (if None \<in> set seen then [] else take 1 (filter (\<lambda>x. key x = None) xs))"
proof (induction xs arbitrary: seen)
  case (Cons x xs)
  show ?case
    using Cons.IH [of seen] Cons.IH [of "key x # seen"] by auto
qed simp

lemma drop_duplicates_idem:
  "drop_duplicates key (drop_duplicates key xs) = drop_duplicates key xs"
  unfolding drop_duplicates_def
  by (rule drop_seen_id) (simp_all add: drop_seen_distinct)

lemma dedupe_has_id:
  "list_ex (\<lambda>x. row_id x \<noteq> None) (drop_duplicates row_id df) = list_ex (\<lambda>x. row_id x \<noteq> None) df"
proof -
  have "set (map row_id (drop_duplicates row_id df)) = set (map row_id df)"
    by (simp add: drop_duplicates_def drop_seen_keys del: set_map)
  then have "(\<exists>x \<in> set (drop_duplicates row_id df). row_id x \<noteq> None) = (\<exists>x \<in> set df. row_id x \<noteq> None)"
    by (metis (mono_tags, lifting) image_iff list.set_map)
  then show ?thesis by (simp add: list_ex_iff)
qed

lemma dedupe_no_id:
  "\<not> list_ex (\<lambda>x. row_id x \<noteq> None) df \<Longrightarrow> \<not> list_ex (\<lambda>x. row_id x \<noteq> None) (drop_duplicates key df)"
  using drop_seen_set [of key "[]" df]
  by (auto simp: list_ex_iff drop_duplicates_def)

lemma dedupe_idem: "dedupe (dedupe df) = dedupe df"
proof (cases "list_ex (\<lambda>x. row_id x \<noteq> None) df")
  case True
  then have ne: "df \<noteq> []" by auto
  have d: "dedupe df = drop_duplicates row_id df"
    using True ne by (simp add: dedupe_def has_columns_def)
  have "list_ex (\<lambda>x. row_id x \<noteq> None) (drop_duplicates row_id df)"
    using True dedupe_has_id [of df] by blast
  moreover from this have "drop_duplicates row_id df \<noteq> []" by auto
  ultimately have "dedupe (drop_duplicates row_id df) = drop_duplicates row_id (drop_duplicates row_id df)"
    by (simp add: dedupe_def has_columns_def)
  with d show ?thesis by (simp add: drop_duplicates_idem)
next
  case False
  then have d: "dedupe df = drop_duplicates triple df"
    by (simp add: dedupe_def)
  from False have "\<not> list_ex (\<lambda>x. row_id x \<noteq> None) (drop_duplicates triple df)"
    by (rule dedupe_no_id)
  then have "dedupe (drop_duplicates triple df) = drop_duplicates triple (drop_duplicates triple df)"
    by (simp add: dedupe_def)
  with d show ?thesis by (simp add: drop_duplicates_idem)
qed

lemma transform_record_id: "row_id (transform_record nd dp ex r) = r ''id''"
  by (simp add: transform_record_def Let_def)

lemma transform_record_triple:
  "triple (transform_record nd dp ex r) =
     (clean_text (Some (or_empty (r ''title''))),
      clean_text (Some (or_empty (py_or (r ''company_name'') (r ''company'')))),
      standardize_location
        (Some (or_empty (py_or (r ''candidate_required_location'') (r ''location'')))))"
  by (simp add: triple_def transform_record_def Let_def)

lemmas row_eval = build_rows_def transform_record_id transform_record_triple dedupe_def
  has_columns_def drop_duplicates_def clean_text_def or_empty_def py_or_def
  standardize_location_def

text \<open>
  C1, as stated, fails: once one record has an identifier the key is the identifier for
  the whole frame, and the records without one are equal on it. Of the three sample
  records the second and third have no identifier and different titles; the third
  does not survive.
\<close>

theorem dedupe_mixed_ids_counterexample:
  "map row_id (build_rows no_digits no_dates None mixed_records) = [Some (str ''1''), None, None] \<and>
   map triple (build_rows no_digits no_dates None mixed_records)
     = [(str ''a'', [], []), (str ''b'', [], []), (str ''c'', [], [])] \<and>
   map triple (dedupe (build_rows no_digits no_dates None mixed_records))
     = [(str ''a'', [], []), (str ''b'', [], [])]"
  by (simp add: mixed_records_def row_eval text_eval)

text \<open>
  C1, amended. After deduplication no identifier that is present occurs twice, and the
  surviving records without identifier differ pairwise in (title, company, location).
  When no record of the input has an identifier, every triple of the input is still
  there, so two records with different triples are not merged.
\<close>

theorem dedupe_unique:
  "distinct (filter (\<lambda>i. i \<noteq> None) (map row_id (dedupe df))) \<and>
   distinct (map triple (filter (\<lambda>x. row_id x = None) (dedupe df))) \<and>
   ((\<forall>x \<in> set df. row_id x = None) \<longrightarrow> triple ` set (dedupe df) = triple ` set df)"
proof (cases "list_ex (\<lambda>x. row_id x \<noteq> None) df")
  case True
  then have ne: "df \<noteq> []" by auto
  have d: "dedupe df = drop_duplicates row_id df"
    using True ne by (simp add: dedupe_def has_columns_def)
  have dist: "distinct (map row_id (dedupe df))"
    unfolding d drop_duplicates_def by (rule drop_seen_distinct)
  then have 1: "distinct (filter (\<lambda>i. i \<noteq> None) (map row_id (dedupe df)))"
    by (rule distinct_filter)
  have "filter (\<lambda>x. row_id x = None) (dedupe df) = take 1 (filter (\<lambda>x. row_id x = None) df)"
    unfolding d drop_duplicates_def by (simp add: drop_seen_null)
  then have "length (filter (\<lambda>x. row_id x = None) (dedupe df)) \<le> 1"
    by simp
  then have 2: "distinct (map triple (filter (\<lambda>x. row_id x = None) (dedupe df)))"
    by (cases "filter (\<lambda>x. row_id x = None) (dedupe df)") auto
  from True have "\<not> (\<forall>x \<in> set df. row_id x = None)"
    by (auto simp: list_ex_iff)
  with 1 2 show ?thesis by blast
next
  case False
  then have all: "\<forall>x \<in> set df. row_id x = None"
    by (auto simp: list_ex_iff)
  from False have d: "dedupe df = drop_duplicates triple df"
    by (simp add: dedupe_def)
  have "set (dedupe df) \<subseteq> set df"
    unfolding d drop_duplicates_def by (rule drop_seen_set)
  with all have "filter (\<lambda>i. i \<noteq> None) (map row_id (dedupe df)) = []"
    by (auto simp: filter_empty_conv)
  then have 1: "distinct (filter (\<lambda>i. i \<noteq> None) (map row_id (dedupe df)))"
    by simp
  have "distinct (map triple (dedupe df))"
    unfolding d drop_duplicates_def by (rule drop_seen_distinct)
  then have 2: "distinct (map triple (filter (\<lambda>x. row_id x = None) (dedupe df)))"
    by (rule distinct_map_filter)
  have "set (map triple (dedupe df)) = set (map triple df)"
    unfolding d drop_duplicates_def drop_seen_keys by simp
  then have 3: "triple ` set (dedupe df) = triple ` set df"
    by simp
  with 1 2 show ?thesis by blast
qed

theorem dedupe_unique_witness:
  "map row_id (build_rows no_digits no_dates None anonymous_records) = [None, None, None] \<and>
   map triple (build_rows no_digits no_dates None anonymous_records)
     = [(str ''b'', [], []), (str ''c'', [], []), (str ''b'', [], [])] \<and>
   triple ` set (dedupe (build_rows no_digits no_dates None anonymous_records))
     = {(str ''b'', [], []), (str ''c'', [], [])} \<and>
   distinct (map triple (filter (\<lambda>x. row_id x = None)
     (dedupe (build_rows no_digits no_dates None anonymous_records))))"
proof -
  let ?a = "build_rows no_digits no_dates None anonymous_records"
  have i: "map row_id ?a = [None, None, None]"
    by (simp add: anonymous_records_def row_eval)
  have ha: "\<forall>x \<in> set ?a. row_id x = None"
    by (simp add: anonymous_records_def row_eval)
  have t: "map triple ?a = [(str ''b'', [], []), (str ''c'', [], []), (str ''b'', [], [])]"
    by (simp add: anonymous_records_def row_eval text_eval)
  then have "set (map triple ?a) = {(str ''b'', [], []), (str ''c'', [], [])}"
    by (simp only: list.set) auto
  then have va: "triple ` set ?a = {(str ''b'', [], []), (str ''c'', [], [])}"
    by simp
  from dedupe_unique [of ?a] ha
  have "triple ` set (dedupe ?a) = triple ` set ?a"
    by blast
  moreover from dedupe_unique [of ?a]
  have "distinct (map triple (filter (\<lambda>x. row_id x = None) (dedupe ?a)))"
    by blast
  ultimately show ?thesis
    using i t va by simp
qed

text \<open>
  In a frame where some record has an identifier the key is the identifier alone, and
  of the records without one only the first is kept.
\<close>

lemma dedupe_null_ids_collapse:
  assumes "\<exists>x \<in> set df. row_id x \<noteq> None"
  shows "filter (\<lambda>x. row_id x = None) (dedupe df) = take 1 (filter (\<lambda>x. row_id x = None) df)"
proof -
  from assms have "list_ex (\<lambda>x. row_id x \<noteq> None) df" "df \<noteq> []"
    by (auto simp: list_ex_iff)
  then have "dedupe df = drop_seen row_id [] df"
    by (simp add: dedupe_def has_columns_def drop_duplicates_def)
  then show ?thesis
    by (simp add: drop_seen_null)
qed

text \<open>
  C8. Deduplicating a deduplicated frame leaves it as it is. The survivors are a
  subsequence of the input, in its order, and a record survives exactly when no record
  before it has the same key: the identifier when some record has one, the triple
  otherwise.
\<close>

theorem dedupe_idempotent:
  "dedupe (dedupe df) = dedupe df \<and>
   subseq (dedupe df) df \<and>
   ((\<exists>x \<in> set df. row_id x \<noteq> None) \<longrightarrow>
      dedupe df = nths df {i. i < length df \<and> (\<forall>j<i. row_id (df ! j) \<noteq> row_id (df ! i))}) \<and>
   ((\<forall>x \<in> set df. row_id x = None) \<longrightarrow>
      dedupe df = nths df {i. i < length df \<and> (\<forall>j<i. triple (df ! j) \<noteq> triple (df ! i))})"
proof -
  have s: "subseq (dedupe df) df"
    by (simp add: dedupe_def drop_duplicates_def drop_seen_subseq)
  have a: "dedupe df = nths df {i. i < length df \<and> (\<forall>j<i. row_id (df ! j) \<noteq> row_id (df ! i))}"
    if "\<exists>x \<in> set df. row_id x \<noteq> None"
  proof -
    from that have "list_ex (\<lambda>x. row_id x \<noteq> None) df" "df \<noteq> []"
      by (auto simp: list_ex_iff)
    then have "dedupe df = drop_seen row_id [] df"
      by (simp add: dedupe_def has_columns_def drop_duplicates_def)
    then show ?thesis
      by (simp add: drop_seen_nths)
  qed
  have b: "dedupe df = nths df {i. i < length df \<and> (\<forall>j<i. triple (df ! j) \<noteq> triple (df ! i))}"
    if "\<forall>x \<in> set df. row_id x = None"
  proof -
    from that have "\<not> list_ex (\<lambda>x. row_id x \<noteq> None) df"
      by (auto simp: list_ex_iff)
    then have "dedupe df = drop_seen triple [] df"
      by (simp add: dedupe_def drop_duplicates_def)
    then show ?thesis
      by (simp add: drop_seen_nths)
  qed
  from s a b dedupe_idem [of df] show ?thesis by blast
qed

theorem dedupe_idempotent_witness:
  "map row_id (build_rows no_digits no_dates None mixed_records) = [Some (str ''1''), None, None] \<and>
   map row_id (build_rows no_digits no_dates None anonymous_records) = [None, None, None] \<and>
   map triple (dedupe (build_rows no_digits no_dates None anonymous_records))
     = [(str ''b'', [], []), (str ''c'', [], [])] \<and>
   dedupe (dedupe (build_rows no_digits no_dates None anonymous_records))
     = dedupe (build_rows no_digits no_dates None anonymous_records) \<and>
   dedupe (build_rows no_digits no_dates None mixed_records)
     = nths (build_rows no_digits no_dates None mixed_records) {0, 1} \<and>
   dedupe (build_rows no_digits no_dates None anonymous_records)
     = nths (build_rows no_digits no_dates None anonymous_records) {0, 1}"
proof -
  let ?m = "build_rows no_digits no_dates None mixed_records"
  let ?a = "build_rows no_digits no_dates None anonymous_records"
  have hm: "\<exists>x \<in> set ?m. row_id x \<noteq> None"
    by (simp add: mixed_records_def row_eval)
  have ha: "\<forall>x \<in> set ?a. row_id x = None"
    by (simp add: anonymous_records_def row_eval)
  have va: "map triple (dedupe ?a) = [(str ''b'', [], []), (str ''c'', [], [])]"
    by (simp add: anonymous_records_def row_eval text_eval)
  have im: "{i. i < length ?m \<and> (\<forall>j<i. row_id (?m ! j) \<noteq> row_id (?m ! i))} = {0, 1}"
    by (auto simp: mixed_records_def row_eval less_Suc_eq numeral_3_eq_3)
  have ia: "{i. i < length ?a \<and> (\<forall>j<i. triple (?a ! j) \<noteq> triple (?a ! i))} = {0, 1}"
    by (auto simp: anonymous_records_def row_eval text_eval less_Suc_eq numeral_3_eq_3)
  from dedupe_idempotent [of ?m] hm im have "dedupe ?m = nths ?m {0, 1}"
    by simp
  moreover from dedupe_idempotent [of ?a] ha ia have "dedupe ?a = nths ?a {0, 1}"
    by simp
  moreover from dedupe_idempotent [of ?a] have "dedupe (dedupe ?a) = dedupe ?a"
    by blast
  moreover have "map row_id ?m = [Some (str ''1''), None, None]"
    by (simp add: mixed_records_def row_eval)
  moreover have "map row_id ?a = [None, None, None]"
    by (simp add: anonymous_records_def row_eval)
  ultimately show ?thesis
    using va by blast
qed


section \<open>Properties of the salary parser\<close>

text \<open>The definitions that evaluate the parser and the rounding on a concrete text.\<close>

lemmas float_eval = to_double_def ulp_def round_even_def exponent_def bit_length.simps
  mul_1000_def less_pyfloat_def

lemmas salary_eval = parse_salary_def remove_commas_def detect_currency_def euro_literal_def
  match_number_def match_fraction_def match_k_def salary_values_def float_of_def
  digits_value_def decimal_value_def is_decimal_def no_digits_def py_min_def py_max_def Let_def

lemma py_min_Min: "py_min v vs = Min (set (v # vs))"
proof (induction vs arbitrary: v)
  case Nil
  show ?case by (simp add: py_min_def)
next
  case (Cons x vs)
  have "py_min v (x # vs) = py_min (if x < v then x else v) vs"
    by (simp add: py_min_def)
  also have "\<dots> = Min (set ((if x < v then x else v) # vs))"
    by (rule Cons.IH)
  also have "\<dots> = Min (set (v # x # vs))"
    by (cases vs) (auto simp: min_def)
  finally show ?case .
qed

lemma py_max_Max: "py_max v vs = Max (set (v # vs))"
proof (induction vs arbitrary: v)
  case Nil
  show ?case by (simp add: py_max_def)
next
  case (Cons x vs)
  have "py_max v (x # vs) = py_max (if x > v then x else v) vs"
    by (simp add: py_max_def)
  also have "\<dots> = Max (set ((if x > v then x else v) # vs))"
    by (rule Cons.IH)
  also have "\<dots> = Max (set (v # x # vs))"
    by (cases vs) (auto simp: max_def)
  finally show ?case .
qed

lemma strip_Nil_iff: "strip s = [] \<longleftrightarrow> (\<forall>c \<in> set s. is_space c)"
proof
  assume "strip s = []"
  then have a: "\<forall>x \<in> set (dropWhile is_space s). is_space x"
    by (simp add: strip_def dropWhile_eq_Nil_conv)
  have "dropWhile is_space s = []"
  proof (rule ccontr)
    assume n: "dropWhile is_space s \<noteq> []"
    then have "\<not> is_space (hd (dropWhile is_space s))"
      by (rule hd_dropWhile)
    with a n show False
      using hd_in_set by blast
  qed
  then show "\<forall>c \<in> set s. is_space c"
    by (simp add: dropWhile_eq_Nil_conv)
next
  assume "\<forall>c \<in> set s. is_space c"
  then have "dropWhile is_space s = []"
    by (simp only: dropWhile_eq_Nil_conv)
  then show "strip s = []"
    by (simp only: strip_def dropWhile.simps rev.simps)
qed

lemma strip_Cons_nonspace: "\<not> is_space c \<Longrightarrow> strip (c # cs) \<noteq> []"
  by (simp add: strip_def)

lemma parse_salary_values:
  assumes "s \<noteq> []" "strip s \<noteq> []"
  shows "parse_salary nd (Some s) =
    (case salary_values nd (findall_numbers nd (lower (remove_commas s))) of
       [] \<Rightarrow> \<lparr>min_v = None, max_v = None, currency = detect_currency s (lower (remove_commas s))\<rparr>
     | v # vs \<Rightarrow> \<lparr>min_v = Some (Min (set (v # vs))), max_v = Some (Max (set (v # vs))),
                  currency = detect_currency s (lower (remove_commas s))\<rparr>)"
  using assms
  by (simp add: parse_salary_def Let_def py_min_Min py_max_Max split: list.splits)

lemma parse_salary_blank:
  "s = [] \<or> strip s = [] \<Longrightarrow> parse_salary nd (Some s) = \<lparr>min_v = None, max_v = None, currency = None\<rparr>"
  by (auto simp: parse_salary_def)

lemma parse_salary_ordered:
  "min_v (parse_salary nd s) = Some a \<Longrightarrow> max_v (parse_salary nd s) = Some b \<Longrightarrow> a \<le> b"
proof (cases s)
  case None
  assume "min_v (parse_salary nd s) = Some a"
  with None show ?thesis by (simp add: parse_salary_def)
next
  case (Some s0)
  assume a: "min_v (parse_salary nd s) = Some a" and b: "max_v (parse_salary nd s) = Some b"
  show ?thesis
  proof (cases "s0 = [] \<or> strip s0 = []")
    case True
    with a Some show ?thesis by (simp add: parse_salary_blank)
  next
    case False
    then have p: "parse_salary nd (Some s0) =
      (case salary_values nd (findall_numbers nd (lower (remove_commas s0))) of
         [] \<Rightarrow> \<lparr>min_v = None, max_v = None, currency = detect_currency s0 (lower (remove_commas s0))\<rparr>
       | v # vs \<Rightarrow> \<lparr>min_v = Some (Min (set (v # vs))), max_v = Some (Max (set (v # vs))),
                    currency = detect_currency s0 (lower (remove_commas s0))\<rparr>)"
      by (simp add: parse_salary_values)
    show ?thesis
    proof (cases "salary_values nd (findall_numbers nd (lower (remove_commas s0)))")
      case Nil
      with a p Some show ?thesis by simp
    next
      case (Cons v vs)
      with a b p Some have "a = Min (set (v # vs))" "b = Max (set (v # vs))"
        by simp_all
      moreover have "Min (set (v # vs)) \<le> v"
        by (rule Min_le) simp_all
      moreover have "v \<le> Max (set (v # vs))"
        by (rule Max_ge) simp_all
      ultimately show ?thesis
        by (simp only: order_trans [of "Min (set (v # vs))" v "Max (set (v # vs))"])
    qed
  qed
qed


lemma parse_salary_currency:
  assumes "s \<noteq> []" "strip s \<noteq> []"
  shows "currency (parse_salary nd (Some s)) = detect_currency s (lower (remove_commas s))"
  using parse_salary_values [OF assms, of nd]
  by (simp split: list.splits)

text \<open>
  C2 fails on the Euro sign. The literal the source tests is not the Euro sign U+20AC
  but the three characters U+00E2, U+201A, U+00AC, which is what the three bytes of its
  UTF-8 encoding give when they are read as Windows-1252. A salary written with the
  Euro sign and no other mark of a currency gets no currency, whatever the table of the
  digits; the Euro sign is no digit, and with a table that has none beyond ASCII the
  whole result is as stated.
\<close>

theorem parse_salary_euro_glyph:
  "currency (parse_salary nd (Some (8364 # str ''50k''))) = None \<and>
   parse_salary no_digits (Some (8364 # str ''50k''))
     = \<lparr>min_v = Some (Finite 50000), max_v = Some (Finite 50000), currency = None\<rparr>"
proof -
  have "8364 # str ''50k'' \<noteq> []" "strip (8364 # str ''50k'') \<noteq> []"
    by (simp_all add: text_eval)
  then have "currency (parse_salary nd (Some (8364 # str ''50k'')))
      = detect_currency (8364 # str ''50k'') (lower (remove_commas (8364 # str ''50k'')))"
    by (rule parse_salary_currency)
  also have "\<dots> = None"
    by (simp add: detect_currency_def euro_literal_def remove_commas_def text_eval)
  finally have 1: "currency (parse_salary nd (Some (8364 # str ''50k''))) = None" .
  have "parse_salary no_digits (Some (8364 # str ''50k''))
     = \<lparr>min_v = Some (Finite 50000), max_v = Some (Finite 50000), currency = None\<rparr>"
    by (simp add: text_eval salary_eval float_eval)
  with 1 show ?thesis by simp
qed

text \<open>The literal of the source is recognised, and so is the substring "eur".\<close>

lemma parse_salary_euro_literal:
  "currency (parse_salary nd (Some (euro_literal @ str ''50k''))) = Some (str ''EUR'')"
proof -
  have "euro_literal @ str ''50k'' \<noteq> []" "strip (euro_literal @ str ''50k'') \<noteq> []"
    by (simp_all add: text_eval euro_literal_def)
  then have "currency (parse_salary nd (Some (euro_literal @ str ''50k'')))
      = detect_currency (euro_literal @ str ''50k'')
          (lower (remove_commas (euro_literal @ str ''50k'')))"
    by (rule parse_salary_currency)
  also have "\<dots> = Some (str ''EUR'')"
    by (simp add: detect_currency_def euro_literal_def remove_commas_def text_eval)
  finally show ?thesis .
qed

lemma parse_salary_eur:
  assumes "sublist (str ''eur'') (lower (remove_commas s))"
    and "\<not> sublist (str ''$'') s" "\<not> sublist (str ''usd'') (lower (remove_commas s))"
  shows "currency (parse_salary nd (Some s)) = Some (str ''EUR'')"
proof -
  from assms(1) have "101 \<in> set (lower (remove_commas s))"
    using sublist_set [of "str ''eur''" "lower (remove_commas s)"] by (auto simp: str_def)
  then obtain c where c: "c \<in> set s" "lower_cp c = 101"
    by (auto simp: lower_def remove_commas_def)
  then have "\<not> is_space c"
    by (auto simp: lower_cp_def is_space_def split: if_splits)
  with c have ne: "s \<noteq> []" "strip s \<noteq> []"
    by (auto simp: strip_Nil_iff)
  have "detect_currency s (lower (remove_commas s)) = Some (str ''EUR'')"
    using assms by (simp add: detect_currency_def str_in_iff_sublist)
  then show ?thesis
    using parse_salary_currency [OF ne, of nd] by simp
qed

text \<open>The scanner on a number that a \<open>k\<close> follows.\<close>

lemma decimal_numeral_shape:
  assumes "decimal_numeral a"
  obtains (whole) "a \<noteq> []" "list_all is_digit a"
  | (fraction) ip fp where "a = ip @ 46 # fp" "ip \<noteq> []" "list_all is_digit ip"
      "fp \<noteq> []" "list_all is_digit fp"
proof (cases "dropWhile is_digit a")
  case Nil
  then have "list_all is_digit a"
    by (simp add: list_all_iff dropWhile_eq_Nil_conv)
  moreover from assms have "a \<noteq> []"
    by (auto simp: decimal_numeral_def Let_def)
  ultimately show ?thesis by (rule whole [rotated])
next
  case (Cons c fp)
  have a: "a = takeWhile is_digit a @ dropWhile is_digit a"
    by simp
  have "list_all is_digit (takeWhile is_digit a)"
    by (auto simp: list_all_iff dest: set_takeWhileD)
  moreover from assms Cons have "c = 46" "fp \<noteq> []" "list_all is_digit fp" "takeWhile is_digit a \<noteq> []"
    by (simp_all add: decimal_numeral_def Let_def)
  ultimately show ?thesis
    using a Cons fraction [of "takeWhile is_digit a" fp] by metis
qed

lemma is_decimal_ascii: "c < 128 \<Longrightarrow> is_decimal nd c = is_digit c"
  by (simp add: is_decimal_def)

lemma is_digit_decimal: "is_digit c \<Longrightarrow> is_decimal nd c"
  by (simp add: is_decimal_def)

lemma digits_then_other:
  "list_all is_digit ds \<Longrightarrow> \<not> is_decimal nd c \<Longrightarrow>
     takeWhile (is_decimal nd) (ds @ c # r) = ds \<and> dropWhile (is_decimal nd) (ds @ c # r) = c # r"
  by (induction ds) (auto simp: is_digit_decimal)

lemma digits_all: "list_all is_digit ds \<Longrightarrow> takeWhile (is_decimal nd) ds = ds"
  by (induction ds) (auto simp: is_digit_decimal)

lemma not_decimal_marks: "\<not> is_decimal nd 46" "\<not> is_decimal nd 107" "\<not> is_decimal nd 32"
  "\<not> is_decimal nd 45"
  by (simp_all add: is_decimal_def is_digit_def)

lemma match_number_numeral:
  assumes "decimal_numeral a"
  shows "match_number nd (a @ 107 # rest) = Some ((a, True), rest)"
  using assms
proof (cases rule: decimal_numeral_shape)
  case whole
  then show ?thesis
    using digits_then_other [of a nd 107 rest] not_decimal_marks [of nd]
    by (simp add: match_number_def match_fraction_def match_k_def)
next
  case (fraction ip fp)
  have 1: "takeWhile (is_decimal nd) (ip @ 46 # fp @ 107 # rest) = ip"
       "dropWhile (is_decimal nd) (ip @ 46 # fp @ 107 # rest) = 46 # fp @ 107 # rest"
    using digits_then_other [of ip nd 46 "fp @ 107 # rest"] fraction not_decimal_marks [of nd]
    by simp_all
  have 2: "takeWhile (is_decimal nd) (fp @ 107 # rest) = fp"
       "dropWhile (is_decimal nd) (fp @ 107 # rest) = 107 # rest"
    using digits_then_other [of fp nd 107 rest] fraction not_decimal_marks [of nd]
    by simp_all
  show ?thesis
    using fraction 1 2
    by (simp add: match_number_def match_fraction_def match_k_def)
qed

lemma decimal_numeral_nonempty: "decimal_numeral a \<Longrightarrow> a \<noteq> []"
  by (auto simp: decimal_numeral_def Let_def)

lemma findall_numbers_numeral:
  assumes "decimal_numeral a"
  shows "findall_numbers nd (a @ 107 # rest) = (a, True) # findall_numbers nd rest"
proof -
  from assms obtain c cs where a: "a = c # cs"
    using decimal_numeral_nonempty by (cases a) auto
  have "findall_numbers nd ((c # cs) @ 107 # rest) = (c # cs, True) # findall_numbers nd rest"
    using match_number_numeral [OF assms, of nd rest] a by simp
  with a show ?thesis by simp
qed

lemma findall_numbers_skip:
  "\<not> is_decimal nd c \<Longrightarrow> findall_numbers nd (c # cs) = findall_numbers nd cs"
  by (simp add: match_number_def)

lemma decimal_numeral_chars:
  assumes "decimal_numeral a"
  shows "\<forall>c \<in> set a. is_digit c \<or> c = 46"
  using assms
  by (cases rule: decimal_numeral_shape) (auto simp: list_all_iff)

lemma range_text_plain:
  assumes "decimal_numeral a" "decimal_numeral b"
  shows "\<forall>c \<in> set (a @ str ''k - '' @ b @ str ''k''). is_digit c \<or> c \<in> {46, 107, 32, 45}"
  using decimal_numeral_chars [OF assms(1)] decimal_numeral_chars [OF assms(2)]
  by (auto simp: str_def)

lemma plain_lower: "\<forall>c \<in> set s. is_digit c \<or> c \<in> {46, 107, 32, 45} \<Longrightarrow> lower (remove_commas s) = s"
  by (induction s) (auto simp: lower_def lower_cp_def remove_commas_def is_digit_def)

lemma plain_no_currency:
  assumes "\<forall>c \<in> set s. is_digit c \<or> c \<in> {46, 107, 32, 45}"
  shows "detect_currency s s = None"
proof -
  have "\<not> sublist k s" if "\<exists>c \<in> set k. \<not> is_digit c \<and> c \<notin> {46, 107, 32, 45}" for k
    using that assms sublist_set [of k s] by blast
  then have "\<not> sublist (str ''$'') s" "\<not> sublist (str ''usd'') s"
    "\<not> sublist euro_literal s" "\<not> sublist (str ''eur'') s"
    by (simp_all add: str_def euro_literal_def is_digit_def)
  then show ?thesis
    by (simp add: detect_currency_def str_in_iff_sublist)
qed

text \<open>\<^verbatim>\<open>float\<close> on a number written in ASCII digits does not ask the table.\<close>

lemma digits_value_ascii:
  "list_all is_digit ds \<Longrightarrow>
     foldl (\<lambda>n c. 10 * n + decimal_value nd c) k ds = foldl (\<lambda>n c. 10 * n + (c - 48)) k ds"
  by (induction ds arbitrary: k) (simp_all add: decimal_value_def)

lemma digits_then_dot: "list_all is_digit ds \<Longrightarrow> takeWhile is_digit (ds @ 46 # r) = ds"
  by (induction ds) (simp_all add: is_digit_def)

lemma float_of_numeral:
  assumes "decimal_numeral a"
  shows "float_of nd a = to_double (numeral_value a)"
  using assms
proof (cases rule: decimal_numeral_shape)
  case whole
  then have t: "takeWhile (is_decimal nd) a = a" "takeWhile is_digit a = a"
    by (simp_all add: digits_all list_all_iff)
  have "foldl (\<lambda>n c. 10 * n + decimal_value nd c) 0 a = foldl (\<lambda>n c. 10 * n + (c - 48)) 0 a"
    using whole by (simp add: digits_value_ascii)
  then show ?thesis
    unfolding float_of_def numeral_value_def digits_value_def Let_def t
    by simp
next
  case (fraction ip fp)
  have 1: "takeWhile (is_decimal nd) (ip @ 46 # fp) = ip"
    using digits_then_other [of ip nd 46 fp] fraction not_decimal_marks [of nd] by simp
  have 2: "takeWhile is_digit (ip @ 46 # fp) = ip"
    using fraction(3) by (rule digits_then_dot)
  have "foldl (\<lambda>n c. 10 * n + decimal_value nd c) 0 ip = foldl (\<lambda>n c. 10 * n + (c - 48)) 0 ip"
       "foldl (\<lambda>n c. 10 * n + decimal_value nd c) 0 fp = foldl (\<lambda>n c. 10 * n + (c - 48)) 0 fp"
    using fraction by (simp_all add: digits_value_ascii)
  then show ?thesis
    unfolding float_of_def numeral_value_def digits_value_def Let_def fraction(1) 1 2
    by simp
qed

text \<open>
  C3, as stated, fails: the values are doubles. The double nearest to 64.1 is below
  it, and so is its product with 1000.0 after rounding: the minimum of
  \<^verbatim>\<open>64.1k - 70k\<close> is 64099.99999999999, not 64100.
\<close>

theorem parse_salary_rounds:
  "parse_salary no_digits (Some (str ''64.1k - 70k''))
     = \<lparr>min_v = Some (Finite (64100 - 1 / 2 ^ 37)), max_v = Some (Finite 70000),
        currency = None\<rparr> \<and>
   (64100 - 1 / 2 ^ 37 :: real) < min 64.1 70 * 1000"
  by (simp add: text_eval salary_eval float_eval)

text \<open>
  C3, amended. For decimal numbers \<open>a\<close> and \<open>b\<close>, in either order, \<open>parse_salary\<close> on
  \<open>a\<close>, "k - ", \<open>b\<close>, "k" gives as the minimum the smaller and as the maximum the larger
  of the two candidate values, each the double nearest to the number times 1000.0,
  rounded again. For every salary text that is not blank: when the scan yields two or
  more values the minimum is the smallest and the maximum the largest of them, and when
  it yields one value both are that value.
\<close>

theorem parse_salary_range:
  "(decimal_numeral a \<and> decimal_numeral b \<longrightarrow>
      parse_salary nd (Some (a @ str ''k - '' @ b @ str ''k'')) =
        \<lparr>min_v = Some (min (mul_1000 (to_double (numeral_value a)))
                           (mul_1000 (to_double (numeral_value b)))),
         max_v = Some (max (mul_1000 (to_double (numeral_value a)))
                           (mul_1000 (to_double (numeral_value b)))),
         currency = None\<rparr>) \<and>
   (s \<noteq> [] \<and> strip s \<noteq> [] \<longrightarrow>
      (2 \<le> length (salary_values nd (findall_numbers nd (lower (remove_commas s)))) \<longrightarrow>
         min_v (parse_salary nd (Some s))
           = Some (Min (set (salary_values nd (findall_numbers nd (lower (remove_commas s)))))) \<and>
         max_v (parse_salary nd (Some s))
           = Some (Max (set (salary_values nd (findall_numbers nd (lower (remove_commas s))))))) \<and>
      (\<forall>v. salary_values nd (findall_numbers nd (lower (remove_commas s))) = [v] \<longrightarrow>
         min_v (parse_salary nd (Some s)) = Some v \<and> max_v (parse_salary nd (Some s)) = Some v))"
proof (intro conjI impI)
  assume ab: "decimal_numeral a \<and> decimal_numeral b"
  let ?s = "a @ str ''k - '' @ b @ str ''k''"
  let ?x = "mul_1000 (to_double (numeral_value a))"
  let ?y = "mul_1000 (to_double (numeral_value b))"
  from ab have da: "decimal_numeral a" and db: "decimal_numeral b" by simp_all
  have plain: "\<forall>c \<in> set ?s. is_digit c \<or> c \<in> {46, 107, 32, 45}"
    using da db by (rule range_text_plain)
  from da obtain c cs where a: "a = c # cs"
    using decimal_numeral_nonempty by (cases a) auto
  with da have "is_digit c"
    by (auto simp: decimal_numeral_def Let_def split: if_splits)
  then have "\<not> is_space c"
    by (auto simp: is_digit_def is_space_def)
  then have ne: "?s \<noteq> []" "strip ?s \<noteq> []"
    using a strip_Cons_nonspace [of c "cs @ str ''k - '' @ b @ str ''k''"] by simp_all
  have "findall_numbers nd ?s = (a, True) # findall_numbers nd (str '' - '' @ b @ str ''k'')"
    using findall_numbers_numeral [OF da, of nd "str '' - '' @ b @ str ''k''"]
    by (simp add: str_def)
  also have "findall_numbers nd (str '' - '' @ b @ str ''k'') = findall_numbers nd (b @ 107 # [])"
    by (simp add: str_def findall_numbers_skip not_decimal_marks del: findall_numbers.simps)
  also have "\<dots> = [(b, True)]"
    using findall_numbers_numeral [OF db, of nd "[]"] by simp
  finally have "salary_values nd (findall_numbers nd ?s) = [?x, ?y]"
    by (simp add: salary_values_def float_of_numeral [OF da] float_of_numeral [OF db])
  then have "parse_salary nd (Some ?s) =
      \<lparr>min_v = Some (Min {?x, ?y}), max_v = Some (Max {?x, ?y}), currency = None\<rparr>"
    using parse_salary_values [OF ne, of nd] plain_lower [OF plain] plain_no_currency [OF plain]
    by simp
  then show "parse_salary nd (Some ?s) =
        \<lparr>min_v = Some (min ?x ?y), max_v = Some (max ?x ?y), currency = None\<rparr>"
    by simp
next
  assume h: "s \<noteq> [] \<and> strip s \<noteq> []"
  assume "2 \<le> length (salary_values nd (findall_numbers nd (lower (remove_commas s))))"
  then show "min_v (parse_salary nd (Some s))
           = Some (Min (set (salary_values nd (findall_numbers nd (lower (remove_commas s))))))"
    using h by (cases "salary_values nd (findall_numbers nd (lower (remove_commas s)))")
      (simp_all add: parse_salary_values)
next
  assume h: "s \<noteq> [] \<and> strip s \<noteq> []"
  assume "2 \<le> length (salary_values nd (findall_numbers nd (lower (remove_commas s))))"
  then show "max_v (parse_salary nd (Some s))
           = Some (Max (set (salary_values nd (findall_numbers nd (lower (remove_commas s))))))"
    using h by (cases "salary_values nd (findall_numbers nd (lower (remove_commas s)))")
      (simp_all add: parse_salary_values)
next
  assume h: "s \<noteq> [] \<and> strip s \<noteq> []"
  show "\<forall>v. salary_values nd (findall_numbers nd (lower (remove_commas s))) = [v] \<longrightarrow>
         min_v (parse_salary nd (Some s)) = Some v \<and> max_v (parse_salary nd (Some s)) = Some v"
    using h by (simp add: parse_salary_values)
qed

theorem parse_salary_range_witness:
  "decimal_numeral (str ''120.5'') \<and> decimal_numeral (str ''80'') \<and>
   numeral_value (str ''120.5'') = 120.5 \<and> numeral_value (str ''80'') = 80 \<and>
   to_double (numeral_value (str ''120.5'')) = Finite 120.5 \<and>
   mul_1000 (to_double (numeral_value (str ''120.5''))) = Finite 120500 \<and>
   mul_1000 (to_double (numeral_value (str ''80''))) = Finite 80000 \<and>
   parse_salary no_digits (Some (str ''120.5k - 80k''))
     = \<lparr>min_v = Some (Finite 80000), max_v = Some (Finite 120500), currency = None\<rparr> \<and>
   salary_values no_digits
       (findall_numbers no_digits (lower (remove_commas (str ''$80k - $120,000 or 95k''))))
     = [Finite 80000, Finite 120000, Finite 95000] \<and>
   min_v (parse_salary no_digits (Some (str ''$80k - $120,000 or 95k''))) = Some (Finite 80000) \<and>
   max_v (parse_salary no_digits (Some (str ''$80k - $120,000 or 95k''))) = Some (Finite 120000) \<and>
   salary_values no_digits (findall_numbers no_digits (lower (remove_commas (str ''50000 USD''))))
     = [Finite 50000] \<and>
   min_v (parse_salary no_digits (Some (str ''50000 USD''))) = Some (Finite 50000) \<and>
   max_v (parse_salary no_digits (Some (str ''50000 USD''))) = Some (Finite 50000)"
proof -
  have n: "decimal_numeral (str ''120.5'')" "decimal_numeral (str ''80'')"
    by (simp_all add: decimal_numeral_def text_eval)
  have f: "numeral_value (str ''120.5'') = 120.5" "numeral_value (str ''80'') = 80"
    by (simp_all add: numeral_value_def text_eval)
  have d: "to_double (numeral_value (str ''120.5'')) = Finite 120.5"
    unfolding f by (simp add: float_eval)
  have m: "mul_1000 (to_double (numeral_value (str ''120.5''))) = Finite 120500"
    "mul_1000 (to_double (numeral_value (str ''80''))) = Finite 80000"
    unfolding f by (simp_all add: float_eval)
  have t: "str ''120.5k - 80k'' = str ''120.5'' @ str ''k - '' @ str ''80'' @ str ''k''"
    by (simp add: str_def)
  have r: "parse_salary no_digits (Some (str ''120.5k - 80k''))
     = \<lparr>min_v = Some (Finite 80000), max_v = Some (Finite 120500), currency = None\<rparr>"
    unfolding t using parse_salary_range [of "str ''120.5''" "str ''80''" no_digits] n m
    by (simp add: less_pyfloat_def)
  let ?s = "str ''$80k - $120,000 or 95k''"
  have s: "?s \<noteq> []" "strip ?s \<noteq> []"
    by (simp_all add: text_eval)
  have v: "salary_values no_digits (findall_numbers no_digits (lower (remove_commas ?s)))
      = [Finite 80000, Finite 120000, Finite 95000]"
    by (simp add: text_eval salary_eval float_eval)
  have mm: "min_v (parse_salary no_digits (Some ?s)) = Some (Finite 80000) \<and>
      max_v (parse_salary no_digits (Some ?s)) = Some (Finite 120000)"
    using parse_salary_range [of _ _ no_digits ?s] s v by (simp add: less_pyfloat_def)
  let ?u = "str ''50000 USD''"
  have u: "?u \<noteq> []" "strip ?u \<noteq> []"
    by (simp_all add: text_eval)
  have w: "salary_values no_digits (findall_numbers no_digits (lower (remove_commas ?u)))
      = [Finite 50000]"
    by (simp add: text_eval salary_eval float_eval)
  have o: "min_v (parse_salary no_digits (Some ?u)) = Some (Finite 50000) \<and>
      max_v (parse_salary no_digits (Some ?u)) = Some (Finite 50000)"
    using parse_salary_range [of _ _ no_digits ?u] u w by simp
  from n f d m r v mm w o show ?thesis by simp
qed

section \<open>Properties of the record transformer\<close>

lemma build_rows_length:
  "length (build_rows nd date_parser extra_skills records) = length records"
  by (simp add: build_rows_def)

lemma transform_record_salary:
  "salary_min (transform_record nd dp ex r) = min_v (parse_salary nd (r ''salary''))"
  "salary_max (transform_record nd dp ex r) = max_v (parse_salary nd (r ''salary''))"
  "salary_currency (transform_record nd dp ex r) = currency (parse_salary nd (r ''salary''))"
  by (simp_all add: transform_record_def Let_def)

lemma isoformat_row_salary:
  "salary_min (isoformat_row fmt x) = salary_min x"
  "salary_max (isoformat_row fmt x) = salary_max x"
  by (simp_all add: isoformat_row_def)

lemma transform_records_rows:
  assumes "transform_records nd dp fmt records ex = Inr rows" "y \<in> set rows"
  obtains r where "r \<in> set records" "y = isoformat_row fmt (transform_record nd dp ex r)"
proof -
  from assms(1) have "rows = map (isoformat_row fmt) (dedupe (build_rows nd dp ex records))"
    by (simp add: transform_records_def Let_def split: if_splits)
  with assms(2) obtain x where x: "x \<in> set (dedupe (build_rows nd dp ex records))" "y = isoformat_row fmt x"
    by auto
  have "set (dedupe (build_rows nd dp ex records)) \<subseteq> set (build_rows nd dp ex records)"
    by (simp add: dedupe_def drop_duplicates_def drop_seen_set)
  with x obtain r where "r \<in> set records" "x = transform_record nd dp ex r"
    by (auto simp: build_rows_def)
  with x that show ?thesis by blast
qed

theorem salary_min_le_max:
  "(min_v (parse_salary nd s) = Some a \<and> max_v (parse_salary nd s) = Some b \<longrightarrow> a \<le> b) \<and>
   (\<forall>rows. transform_records nd date_parser isoformat records extra_skills = Inr rows \<longrightarrow>
      (\<forall>x \<in> set rows. salary_min x = Some a \<and> salary_max x = Some b \<longrightarrow> a \<le> b))"
proof (intro conjI allI impI ballI)
  assume "min_v (parse_salary nd s) = Some a \<and> max_v (parse_salary nd s) = Some b"
  then show "a \<le> b"
    using parse_salary_ordered [of nd s a b] by simp
next
  fix rows x
  assume t: "transform_records nd date_parser isoformat records extra_skills = Inr rows"
    and x: "x \<in> set rows"
    and m: "salary_min x = Some a \<and> salary_max x = Some b"
  from t x obtain r where "x = isoformat_row isoformat (transform_record nd date_parser extra_skills r)"
    by (rule transform_records_rows)
  with m have "min_v (parse_salary nd (r ''salary'')) = Some a"
    "max_v (parse_salary nd (r ''salary'')) = Some b"
    by (simp_all add: isoformat_row_salary transform_record_salary)
  then show "a \<le> b"
    by (rule parse_salary_ordered)
qed

theorem salary_min_le_max_witness:
  "min_v (parse_salary no_digits (Some (str ''120k - 80k''))) = Some (Finite 80000) \<and>
   max_v (parse_salary no_digits (Some (str ''120k - 80k''))) = Some (Finite 120000) \<and>
   transform_records no_digits no_dates (\<lambda>d. []) [range_record] None
     = Inr [isoformat_row (\<lambda>d. []) (transform_record no_digits no_dates None range_record)] \<and>
   salary_min (isoformat_row (\<lambda>d. []) (transform_record no_digits no_dates None range_record))
     = Some (Finite 80000) \<and>
   salary_max (isoformat_row (\<lambda>d. []) (transform_record no_digits no_dates None range_record))
     = Some (Finite 120000) \<and>
   Finite 80000 \<le> Finite 120000"
proof -
  let ?x = "isoformat_row (\<lambda>d. []) (transform_record no_digits no_dates None range_record)"
  have p: "parse_salary no_digits (Some (str ''120k - 80k''))
      = \<lparr>min_v = Some (Finite 80000), max_v = Some (Finite 120000), currency = None\<rparr>"
    by (simp add: text_eval salary_eval float_eval)
  have t: "transform_records no_digits no_dates (\<lambda>d. []) [range_record] None = Inr [?x]"
    by (simp add: transform_records_def build_rows_def dedupe_def has_columns_def
        drop_duplicates_def Let_def)
  have x: "salary_min ?x = Some (Finite 80000)" "salary_max ?x = Some (Finite 120000)"
    by (simp_all add: isoformat_row_salary transform_record_salary range_record_def p)
  have "Finite 80000 \<le> Finite 120000"
    using salary_min_le_max [of no_digits "Some (str ''120k - 80k'')" "Finite 80000" "Finite 120000"] p
    by simp
  moreover have "Finite 80000 \<le> Finite 120000"
    using salary_min_le_max [of no_digits _ "Finite 80000" "Finite 120000" no_dates "\<lambda>d. []"
        "[range_record]" None] t x
    by simp
  ultimately show ?thesis
    using p t x by simp
qed

text \<open>
  C5 fails on the empty list of records: the frame built from it has no columns, and
  the statement that converts the publication dates reads a column that is not there.
\<close>

theorem transform_records_empty:
  "transform_records nd date_parser isoformat [] extra_skills = Inl (KeyError ''publication_date'')"
  by (simp add: transform_records_def build_rows_def dedupe_def has_columns_def
      drop_duplicates_def)

text \<open>
  On a list of records that is not empty \<open>transform_records\<close> returns rows, and a
  record without any field gives the row of the defaults.
\<close>

lemma transform_records_nonempty:
  assumes "records \<noteq> []"
  shows "\<exists>rows. transform_records nd date_parser isoformat records extra_skills = Inr rows \<and> rows \<noteq> []"
proof -
  from assms obtain r rs where "records = r # rs" by (cases records) auto
  then have "dedupe (build_rows nd date_parser extra_skills records) \<noteq> []"
    by (simp add: build_rows_def dedupe_def drop_duplicates_def)
  then show ?thesis
    by (simp add: transform_records_def has_columns_def)
qed

lemma search_word_empty_text: "\<not> re_search_skill k []"
  by (simp add: re_search_skill_def match_word_def word_boundary_def first_char_def)

lemma collect_skills_empty_text: "collect_skills cs [] [] acc = acc"
  by (induction cs arbitrary: acc) (simp_all add: search_word_empty_text)

lemma extract_skills_empty_text: "extract_skills [] [] ex = []"
  by (simp add: extract_skills_def lower_def collect_skills_empty_text)

lemma transform_record_defaults:
  "transform_record nd date_parser extra_skills Map.empty =
     \<lparr>row_id = None, url = None, title = [], normalized_title = [], company_name = [],
      category = None, job_type = None, publication_date = None, location = [],
      remote = False, salary_min = None, salary_max = None, salary_currency = None,
      description = [], tags = [], skills = [], seniority = [], raw_record = Map.empty\<rparr>"
  by (simp add: transform_record_def clean_text_def or_empty_def py_or_def
      standardize_location_def parse_publication_date_def parse_salary_def
      extract_skills_empty_text infer_seniority_def lower_def str_def)

end
